theory Spec2Isabelle
  imports Complex_Main "HOL-Library.Multiset" "HOL-Library.Product_Lexorder"
begin

section \<open>Timestamps\<close>

text \<open>
  The call log holds pandas timestamps. A timestamp is modelled as the number of
  nanoseconds of wall-clock time since 1970-01-01 00:00:00 in the view it belongs to
  (pandas keeps exactly this 64-bit count). 1970-01-01 was a Thursday.
\<close>

type_synonym timestamp = int

definition ns_per_second :: int where
  "ns_per_second = 1000000000"

definition ns_per_minute :: int where
  "ns_per_minute = 60 * ns_per_second"

definition ns_per_hour :: int where
  "ns_per_hour = 60 * ns_per_minute"

definition ns_per_day :: int where
  "ns_per_day = 24 * ns_per_hour"

text \<open>
  A readable way of writing concrete timestamps: day \<open>d\<close> after 1970-01-01, at
  \<open>hh:mm\<close>. Day 2 is Saturday 1970-01-03, day 3 is Sunday 1970-01-04 and day 4 is
  Monday 1970-01-05.
\<close>

definition at_day_hm :: "int \<Rightarrow> int \<Rightarrow> int \<Rightarrow> timestamp" where
  "at_day_hm d hh mm = d * ns_per_day + hh * ns_per_hour + mm * ns_per_minute"

text \<open>\<^verbatim>\<open>Timedelta.total_seconds()\<close>: the difference of two timestamps in seconds. The
  source computes with binary floating point; the model computes with real numbers.\<close>

definition total_seconds :: "int \<Rightarrow> real" where
  "total_seconds delta = real_of_int delta / real_of_int ns_per_second"

text \<open>\<^verbatim>\<open>Series.dt.dayofweek\<close> (Monday is 0, Sunday is 6) and \<^verbatim>\<open>Series.dt.hour\<close>.\<close>

definition dayofweek :: "timestamp \<Rightarrow> int" where
  "dayofweek t = (t div ns_per_day + 3) mod 7"

definition hour :: "timestamp \<Rightarrow> int" where
  "hour t = (t div ns_per_hour) mod 24"

section \<open>Errors\<close>

datatype error = KeyError string | IndexError

text \<open>Indexing a sequence at a non-negative position; Python raises IndexError beyond
  the end.\<close>

definition getitem :: "'a list \<Rightarrow> nat \<Rightarrow> error + 'a" where
  "getitem xs i = (if i < length xs then Inr (xs ! i) else Inl IndexError)"

section \<open>The interval splitter\<close>

text \<open>
  \<^verbatim>\<open>pd.date_range(start=start_time, end=end_time, freq='h')\<close>: the timestamps
  \<open>start\<close>, \<open>start + 1h\<close>, \<open>start + 2h\<close>, ... that do not exceed \<open>end\<close>. The range is
  anchored at \<open>start\<close> itself; it is empty when \<open>end\<close> lies before \<open>start\<close>.
\<close>

definition date_range :: "timestamp \<Rightarrow> timestamp \<Rightarrow> timestamp list" where
  "date_range start_time end_time =
     (if end_time < start_time then []
      else map (\<lambda>i. start_time + int i * ns_per_hour)
             [0 ..< Suc (nat ((end_time - start_time) div ns_per_hour))])"

record contribution =
  time_bucket :: timestamp
  minutes :: real
  time_zone :: string

text \<open>The body of the loop of \<^verbatim>\<open>split_call_by_hour\<close> for one index \<open>i\<close>: the
  entries appended to \<^verbatim>\<open>split_minutes\<close> (none or one), or the error raised.\<close>

definition split_interval ::
  "timestamp \<Rightarrow> timestamp \<Rightarrow> string \<Rightarrow> timestamp list \<Rightarrow> nat \<Rightarrow> error + contribution list" where
  "split_interval start_time end_time tz time_range i =
     (case getitem time_range i of
        Inl err \<Rightarrow> Inl err
      | Inr start_interval \<Rightarrow>
          (case getitem time_range (i + 1) of
             Inl err \<Rightarrow> Inl err
           | Inr end_interval \<Rightarrow>
               (let start_in_this_hour = max start_time start_interval;
                    end_in_this_hour = min end_time end_interval;
                    minutes_in_this_hour =
                      total_seconds (end_in_this_hour - start_in_this_hour) / 60
                in if minutes_in_this_hour > 0
                   then Inr [\<lparr>time_bucket = start_in_this_hour,
                              minutes = minutes_in_this_hour,
                              time_zone = tz\<rparr>]
                   else Inr [])))"

text \<open>The loop over the indices, with \<^verbatim>\<open>split_minutes\<close> as accumulator.\<close>

fun split_loop ::
  "timestamp \<Rightarrow> timestamp \<Rightarrow> string \<Rightarrow> timestamp list \<Rightarrow> nat list \<Rightarrow> contribution list
     \<Rightarrow> error + contribution list" where
  "split_loop start_time end_time tz time_range [] split_minutes = Inr split_minutes"
| "split_loop start_time end_time tz time_range (i # rest) split_minutes =
     (case split_interval start_time end_time tz time_range i of
        Inl err \<Rightarrow> Inl err
      | Inr new \<Rightarrow> split_loop start_time end_time tz time_range rest (split_minutes @ new))"

text \<open>\<^verbatim>\<open>range(len(time_range) - 1)\<close> is empty when the range has no element; the
  truncating subtraction of \<open>nat\<close> gives the same indices.\<close>

definition split_call_by_hour ::
  "timestamp \<Rightarrow> timestamp \<Rightarrow> string \<Rightarrow> error + contribution list" where
  "split_call_by_hour start_time end_time tz =
     (let time_range = date_range start_time end_time
      in split_loop start_time end_time tz time_range [0 ..< length time_range - 1] [])"

section \<open>The grid aggregator\<close>

text \<open>One row of the call log: the same call in the two time-zone views.\<close>

record call_record =
  Start_Datetime_SG :: timestamp
  End_Datetime_SG :: timestamp
  Start_Datetime_NZ :: timestamp
  End_Datetime_NZ :: timestamp

text \<open>The loop over the rows of the call log, with the two lists \<^verbatim>\<open>sg_minutes\<close> and
  \<^verbatim>\<open>nz_minutes\<close> as accumulators.\<close>

fun split_rows ::
  "call_record list \<Rightarrow> contribution list \<Rightarrow> contribution list
     \<Rightarrow> error + (contribution list \<times> contribution list)" where
  "split_rows [] sg_minutes nz_minutes = Inr (sg_minutes, nz_minutes)"
| "split_rows (row # rest) sg_minutes nz_minutes =
     (case split_call_by_hour (Start_Datetime_SG row) (End_Datetime_SG row) ''SG'' of
        Inl err \<Rightarrow> Inl err
      | Inr new_sg \<Rightarrow>
          (case split_call_by_hour (Start_Datetime_NZ row) (End_Datetime_NZ row) ''NZ'' of
             Inl err \<Rightarrow> Inl err
           | Inr new_nz \<Rightarrow> split_rows rest (sg_minutes @ new_sg) (nz_minutes @ new_nz)))"

text \<open>
  \<^verbatim>\<open>pd.DataFrame(sg_minutes)\<close> has the columns of the dictionaries in the list: a
  data frame built from the empty list has no column at all, and reading its column
  \<^verbatim>\<open>'time_bucket'\<close> raises KeyError.
\<close>

definition column_time_bucket :: "contribution list \<Rightarrow> error + timestamp list" where
  "column_time_bucket df =
     (if df = [] then Inl (KeyError ''time_bucket'') else Inr (map time_bucket df))"

text \<open>The weekday with Sunday as 0 and Saturday as 6.\<close>

definition Weekday :: "timestamp \<Rightarrow> int" where
  "Weekday t = (dayofweek t + 1) mod 7"

text \<open>The data frame with the columns \<^verbatim>\<open>Weekday\<close> and \<^verbatim>\<open>Hour\<close> added: each row is
  kept as its key \<open>(Weekday, Hour)\<close> and its minutes.\<close>

type_synonym cell_key = "int \<times> int"

definition with_weekday_hour :: "contribution list \<Rightarrow> error + (cell_key \<times> real) list" where
  "with_weekday_hour df =
     (case column_time_bucket df of
        Inl err \<Rightarrow> Inl err
      | Inr _ \<Rightarrow>
          Inr (map (\<lambda>c. ((Weekday (time_bucket c), hour (time_bucket c)), minutes c)) df))"

text \<open>\<^verbatim>\<open>groupby(['Weekday', 'Hour']).agg({'minutes': 'sum'}).reset_index()\<close>: one row
  per key that occurs, in ascending order of the keys, with the sum of the minutes of
  the rows of that key.\<close>

definition groupby_sum :: "(cell_key \<times> real) list \<Rightarrow> (cell_key \<times> real) list" where
  "groupby_sum rows =
     map (\<lambda>k. (k, sum_list (map snd (filter (\<lambda>r. fst r = k) rows))))
       (sort (remdups (map fst rows)))"

definition days_of_week :: "int list" where
  "days_of_week = [0, 1, 2, 3, 4, 5, 6]"

definition hours_of_day :: "int list" where
  "hours_of_day = map int [0 ..< 24]"

text \<open>\<^verbatim>\<open>itertools.product(days_of_week, hours_of_day)\<close>.\<close>

definition week_combinations :: "cell_key list" where
  "week_combinations = List.product days_of_week hours_of_day"

text \<open>
  \<^verbatim>\<open>pd.merge(left, right, how='left')\<close> on the key: the rows of \<open>left\<close> in their order,
  each paired with the value of every row of \<open>right\<close> that has its key, or once with
  the missing value (NaN, here \<open>None\<close>) when \<open>right\<close> has no such row.
\<close>

definition merge_left ::
  "('a \<Rightarrow> cell_key) \<Rightarrow> 'a list \<Rightarrow> (cell_key \<times> real) list \<Rightarrow> ('a \<times> real option) list" where
  "merge_left key left right =
     concat (map (\<lambda>l. case filter (\<lambda>r. fst r = key l) right of
                          [] \<Rightarrow> [(l, None)]
                        | ms \<Rightarrow> map (\<lambda>r. (l, Some (snd r))) ms) left)"

record grid_row =
  Day_of_Week :: int
  Hour :: int
  minutes_SG :: "real option"
  minutes_NZ :: "real option"

definition transform_for_time_heatmap :: "call_record list \<Rightarrow> error + grid_row list" where
  "transform_for_time_heatmap df_combined =
     (case split_rows df_combined [] [] of
        Inl err \<Rightarrow> Inl err
      | Inr (sg_minutes, nz_minutes) \<Rightarrow>
          (case with_weekday_hour sg_minutes of
             Inl err \<Rightarrow> Inl err
           | Inr sg_minutes_df \<Rightarrow>
               (case with_weekday_hour nz_minutes of
                  Inl err \<Rightarrow> Inl err
                | Inr nz_minutes_df \<Rightarrow>
                    (let sg_agg = groupby_sum sg_minutes_df;
                         nz_agg = groupby_sum nz_minutes_df;
                         merged_sg = merge_left id week_combinations sg_agg;
                         merged = merge_left fst merged_sg nz_agg
                     in Inr (map (\<lambda>((k, sg), nz).
                                   \<lparr>Day_of_Week = fst k, Hour = snd k,
                                    minutes_SG = sg, minutes_NZ = nz\<rparr>) merged)))))"

section \<open>Notions used in the statements\<close>

text \<open>The contributions of a whole call log in each view, in the order of the log, and
  the rows of a contribution frame as keys with minutes. The splitter is shown below
  never to raise, so \<open>projr\<close> reads its result.\<close>

abbreviation sg_contributions :: "call_record list \<Rightarrow> contribution list" where
  "sg_contributions calls \<equiv>
     concat (map (\<lambda>row. projr (split_call_by_hour (Start_Datetime_SG row)
                                 (End_Datetime_SG row) ''SG'')) calls)"

abbreviation nz_contributions :: "call_record list \<Rightarrow> contribution list" where
  "nz_contributions calls \<equiv>
     concat (map (\<lambda>row. projr (split_call_by_hour (Start_Datetime_NZ row)
                                 (End_Datetime_NZ row) ''NZ'')) calls)"

abbreviation keyed :: "contribution list \<Rightarrow> (cell_key \<times> real) list" where
  "keyed df \<equiv> map (\<lambda>c. ((Weekday (time_bucket c), hour (time_bucket c)), minutes c)) df"

section \<open>What the splitter computes\<close>

lemma ns_per_hour_pos: "0 < ns_per_hour"
  by (simp add: ns_per_hour_def ns_per_minute_def ns_per_second_def)

lemma length_date_range:
  "length (date_range s e) = (if e < s then 0 else Suc (nat ((e - s) div ns_per_hour)))"
  by (simp add: date_range_def)

lemma nth_date_range:
  "i < length (date_range s e) \<Longrightarrow> date_range s e ! i = s + int i * ns_per_hour"
  by (auto simp: date_range_def split: if_splits simp del: upt_Suc)

lemma hour_in_minutes: "total_seconds ns_per_hour / 60 = 60"
  by (simp add: total_seconds_def ns_per_hour_def ns_per_minute_def ns_per_second_def)

lemma date_range_next_le:
  assumes "Suc i < length (date_range s e)"
  shows "s + int (Suc i) * ns_per_hour \<le> e"
proof -
  from assms have "int (Suc i) \<le> (e - s) div ns_per_hour"
    by (auto simp: length_date_range split: if_splits)
  then have "int (Suc i) * ns_per_hour \<le> ((e - s) div ns_per_hour) * ns_per_hour"
    using ns_per_hour_pos by (simp add: mult_right_mono)
  also have "\<dots> \<le> e - s"
    using ns_per_hour_pos by (metis div_mult_mod_eq le_add_same_cancel1 pos_mod_sign)
  finally show ?thesis by simp
qed

text \<open>Inside the range every interval is a whole hour that ends no later than the call,
  so the overlap is the whole interval.\<close>

lemma split_interval_inside:
  assumes "Suc i < length (date_range s e)"
  shows "split_interval s e tz (date_range s e) i =
           Inr [\<lparr>time_bucket = s + int i * ns_per_hour, minutes = 60, time_zone = tz\<rparr>]"
proof -
  have a: "getitem (date_range s e) i = Inr (s + int i * ns_per_hour)"
    using assms by (simp add: getitem_def nth_date_range)
  have b: "getitem (date_range s e) (i + 1) = Inr (s + int (Suc i) * ns_per_hour)"
    using assms by (simp add: getitem_def nth_date_range)
  have c: "max s (s + int i * ns_per_hour) = s + int i * ns_per_hour"
    using ns_per_hour_pos by (simp add: max_def)
  have d: "min e (s + int (Suc i) * ns_per_hour) = s + int (Suc i) * ns_per_hour"
    using date_range_next_le [OF assms] by (simp add: min_def)
  have len: "s + int (Suc i) * ns_per_hour - (s + int i * ns_per_hour) = ns_per_hour"
    by (simp add: algebra_simps)
  show ?thesis
    unfolding split_interval_def a b
    by (simp only: sum.case Let_def c d len hour_in_minutes) simp
qed

lemma split_loop_inside:
  assumes "\<forall>i \<in> set is. Suc i < length (date_range s e)"
  shows "split_loop s e tz (date_range s e) is acc =
           Inr (acc @ map (\<lambda>i. \<lparr>time_bucket = s + int i * ns_per_hour, minutes = 60,
                                 time_zone = tz\<rparr>) is)"
  using assms
proof (induction "is" arbitrary: acc)
  case Nil
  then show ?case by simp
next
  case (Cons i rest)
  then show ?case by (simp add: split_interval_inside)
qed

text \<open>The splitter never raises, and its result is one full hour per whole hour of the
  call, anchored at the start of the call.\<close>

lemma split_call_by_hour_eq:
  "split_call_by_hour s e tz =
     Inr (map (\<lambda>i. \<lparr>time_bucket = s + int i * ns_per_hour, minutes = 60, time_zone = tz\<rparr>)
            [0 ..< length (date_range s e) - 1])"
proof -
  have "\<forall>i \<in> set [0 ..< length (date_range s e) - 1]. Suc i < length (date_range s e)"
    by auto
  from split_loop_inside [OF this, of tz "[]"] show ?thesis
    by (simp add: split_call_by_hour_def Let_def)
qed

section \<open>What the aggregator computes\<close>

lemma split_call_by_hour_Inr:
  "split_call_by_hour s e tz = Inr (projr (split_call_by_hour s e tz))"
  by (simp add: split_call_by_hour_eq)

lemma split_rows_eq:
  "split_rows calls sg nz = Inr (sg @ sg_contributions calls, nz @ nz_contributions calls)"
proof (induction calls arbitrary: sg nz)
  case Nil
  then show ?case by simp
next
  case (Cons row rest)
  show ?case
    by (subst split_rows.simps, subst split_call_by_hour_Inr, subst (2) split_call_by_hour_Inr)
       (simp add: Cons.IH)
qed

lemma with_weekday_hour_eq:
  "with_weekday_hour df = (if df = [] then Inl (KeyError ''time_bucket'') else Inr (keyed df))"
  by (simp add: with_weekday_hour_def column_time_bucket_def)

text \<open>The keys of the grouped frame are distinct, so the left merge finds at most one
  row for each key of the grid.\<close>

lemma filter_key_distinct:
  "distinct (map fst right) \<Longrightarrow>
     filter (\<lambda>r. fst r = k) right = (case map_of right k of None \<Rightarrow> [] | Some v \<Rightarrow> [(k, v)])"
proof (induction right)
  case Nil
  then show ?case by simp
next
  case (Cons r right)
  then show ?case
    by (cases r) (auto split: option.splits simp: map_of_eq_None_iff image_iff filter_empty_conv)
qed

lemma merge_left_distinct:
  assumes "distinct (map fst right)"
  shows "merge_left key left right = map (\<lambda>l. (l, map_of right (key l))) left"
proof -
  have "(case filter (\<lambda>r. fst r = key l) right of
           [] \<Rightarrow> [(l, None)] | ms \<Rightarrow> map (\<lambda>r. (l, Some (snd r))) ms) = [(l, map_of right (key l))]"
    for l
    by (simp add: filter_key_distinct [OF assms] split: option.splits)
  then show ?thesis
    by (simp add: merge_left_def)
qed

lemma distinct_groupby_sum: "distinct (map fst (groupby_sum rows))"
  by (simp add: groupby_sum_def comp_def)

lemma map_of_groupby_sum:
  "map_of (groupby_sum rows) k =
     (if k \<in> fst ` set rows then Some (sum_list (map snd (filter (\<lambda>r. fst r = k) rows)))
      else None)"
  by (simp add: groupby_sum_def map_of_map_restrict restrict_map_def)

text \<open>The aggregator as a whole: it raises KeyError when a view has no contribution,
  and otherwise returns one row per key of the grid, in the order of the grid, with the
  value the grouped frame of each view has for the key.\<close>

lemma transform_for_time_heatmap_eq:
  "transform_for_time_heatmap calls =
     (if sg_contributions calls = [] \<or> nz_contributions calls = []
      then Inl (KeyError ''time_bucket'')
      else Inr (map (\<lambda>k. \<lparr>Day_of_Week = fst k, Hour = snd k,
                           minutes_SG = map_of (groupby_sum (keyed (sg_contributions calls))) k,
                           minutes_NZ = map_of (groupby_sum (keyed (nz_contributions calls))) k\<rparr>)
                  week_combinations))"
  unfolding transform_for_time_heatmap_def split_rows_eq with_weekday_hour_eq
  by (simp add: Let_def merge_left_distinct distinct_groupby_sum comp_def del: concat_eq_Nil_conv)

lemma length_week_combinations: "length week_combinations = 168"
  by (simp add: week_combinations_def days_of_week_def hours_of_day_def)

lemma distinct_week_combinations: "distinct week_combinations"
  unfolding week_combinations_def
  by (rule distinct_product) (simp_all add: days_of_week_def hours_of_day_def distinct_map)

lemma set_week_combinations:
  "set week_combinations = {0, 1, 2, 3, 4, 5, 6} \<times> {h. 0 \<le> h \<and> h < 24}"
proof -
  have "int ` {0 ..< 24} = {h. 0 \<le> h \<and> h < 24}"
  proof (rule set_eqI)
    fix h :: int
    have "h \<in> int ` {0 ..< 24}" if "0 \<le> h \<and> h < 24"
      using that by (intro image_eqI [of _ _ "nat h"]) auto
    then show "h \<in> int ` {0 ..< 24} \<longleftrightarrow> h \<in> {h. 0 \<le> h \<and> h < 24}" by auto
  qed
  then have hours: "set hours_of_day = {h. 0 \<le> h \<and> h < 24}"
    by (simp add: hours_of_day_def)
  have days: "set days_of_week = {0, 1, 2, 3, 4, 5, 6}"
    by (simp add: days_of_week_def)
  show ?thesis
    by (simp only: week_combinations_def set_product hours days)
qed

text \<open>When the aggregator returns, the table has the 168 rows of the grid, one for each
  pair of weekday and hour and in the order of the grid, and a cell holds the missing
  value exactly when no contribution of its view has its key.\<close>

lemma grid_when_returned:
  assumes "transform_for_time_heatmap calls = Inr rows"
  shows "length rows = 168"
    and "map (\<lambda>r. (Day_of_Week r, Hour r)) rows = week_combinations"
    and "\<forall>r \<in> set rows. (minutes_SG r = None) =
            ((Day_of_Week r, Hour r) \<notin> fst ` set (keyed (sg_contributions calls)))"
    and "\<forall>r \<in> set rows. (minutes_NZ r = None) =
            ((Day_of_Week r, Hour r) \<notin> fst ` set (keyed (nz_contributions calls)))"
proof -
  from assms have rows: "rows = map (\<lambda>k. \<lparr>Day_of_Week = fst k, Hour = snd k,
        minutes_SG = map_of (groupby_sum (keyed (sg_contributions calls))) k,
        minutes_NZ = map_of (groupby_sum (keyed (nz_contributions calls))) k\<rparr>) week_combinations"
    by (simp add: transform_for_time_heatmap_eq split: if_splits del: concat_eq_Nil_conv)
  show "length rows = 168"
    by (simp add: rows length_week_combinations)
  show "map (\<lambda>r. (Day_of_Week r, Hour r)) rows = week_combinations"
    by (simp add: rows comp_def)
  show "\<forall>r \<in> set rows. (minutes_SG r = None) =
            ((Day_of_Week r, Hour r) \<notin> fst ` set (keyed (sg_contributions calls)))"
    unfolding rows by (auto simp: map_of_groupby_sum)
  show "\<forall>r \<in> set rows. (minutes_NZ r = None) =
            ((Day_of_Week r, Hour r) \<notin> fst ` set (keyed (nz_contributions calls)))"
    unfolding rows by (auto simp: map_of_groupby_sum)
qed

text \<open>Grouping depends on the rows only as a multiset.\<close>

lemma groupby_sum_mset:
  assumes "mset rows = mset rows'"
  shows "groupby_sum rows = groupby_sum rows'"
proof -
  from assms have "set rows = set rows'" by (rule mset_eq_setD)
  then have s: "set (map fst rows) = set (map fst rows')" by simp
  have keys: "sort (remdups (map fst rows)) = sort (remdups (map fst rows'))"
    by (rule sorted_distinct_set_unique) (simp_all add: s del: set_map)
  have "sum_list (map snd (filter P rows)) = sum_list (map snd (filter P rows'))" for P
  proof -
    have "mset (map snd (filter P rows)) = mset (map snd (filter P rows'))"
      by (simp add: assms)
    then show ?thesis by (metis sum_mset_sum_list)
  qed
  then show ?thesis
    by (simp add: groupby_sum_def keys)
qed

lemma mset_concat_map:
  assumes "mset xs = mset ys"
  shows "mset (concat (map f xs)) = mset (concat (map f ys))"
proof -
  have "mset (concat (map f zs)) = (\<Sum>z\<in>#mset zs. mset (f z))" for zs
    by (induction zs) simp_all
  with assms show ?thesis by simp
qed

lemma mset_keyed:
  assumes "mset xs = mset ys"
  shows "mset (keyed xs) = mset (keyed ys)"
  using assms by (simp only: mset_map)

lemma empty_iff_mset:
  assumes "mset xs = mset ys"
  shows "(xs = []) = (ys = [])"
proof -
  have "(xs = []) = (mset xs = {#})" by simp
  also have "\<dots> = (mset ys = {#})" by (simp only: assms)
  also have "\<dots> = (ys = [])" by simp
  finally show ?thesis .
qed

lemmas ns_defs =
  at_day_hm_def ns_per_day_def ns_per_hour_def ns_per_minute_def ns_per_second_def

text \<open>The contributions of a call add up to 60 minutes for each whole hour of the call;
  what is left after the last whole hour is not counted.\<close>

lemma split_call_by_hour_sum:
  assumes "s \<le> e" and "split_call_by_hour s e tz = Inr cs"
  shows "sum_list (map minutes cs) = 60 * real_of_int ((e - s) div ns_per_hour)"
proof -
  from assms(2)
  have cs: "cs = map (\<lambda>i. \<lparr>time_bucket = s + int i * ns_per_hour, minutes = 60,
                             time_zone = tz\<rparr>) [0 ..< length (date_range s e) - 1]"
    by (simp add: split_call_by_hour_eq)
  have "0 \<le> (e - s) div ns_per_hour"
    using assms(1) ns_per_hour_pos by (simp add: pos_imp_zdiv_nonneg_iff)
  then show ?thesis
    using assms(1) by (simp add: cs length_date_range comp_def sum_list_triv)
qed

text \<open>An example of a table: one call on a Monday, from 10:30 to 12:15 in one view and
  from 14:30 to 16:15 in the other. One cell of each view has 60 minutes; every other
  cell has the missing value.\<close>

lemma heatmap_example:
  "transform_for_time_heatmap
     [\<lparr>Start_Datetime_SG = at_day_hm 4 10 30, End_Datetime_SG = at_day_hm 4 12 15,
       Start_Datetime_NZ = at_day_hm 4 14 30, End_Datetime_NZ = at_day_hm 4 16 15\<rparr>]
   = Inr (map (\<lambda>k. \<lparr>Day_of_Week = fst k, Hour = snd k,
                      minutes_SG = (if k = (1, 10) then Some 60 else None),
                      minutes_NZ = (if k = (1, 14) then Some 60 else None)\<rparr>)
            week_combinations)"
  by (simp add: transform_for_time_heatmap_eq split_call_by_hour_eq length_date_range
      map_of_groupby_sum Weekday_def dayofweek_def hour_def ns_defs)

section \<open>Claims about the interval splitter\<close>

text \<open>
  C1 (minute conservation). The claim: the minutes of the contributions of a call add up
  to the duration of the call. The code does not do this. The call from 10:30 to 12:15
  lasts 105 minutes; the hour grid starts at 10:30 and its last point is 11:30, so only
  the interval from 10:30 to 11:30 is counted and the contributions add up to 60 minutes.
\<close>

theorem minute_conservation_fails:
  "\<exists>cs. split_call_by_hour (at_day_hm 4 10 30) (at_day_hm 4 12 15) ''SG'' = Inr cs
      \<and> sum_list (map minutes cs) = 60
      \<and> total_seconds (at_day_hm 4 12 15 - at_day_hm 4 10 30) / 60 = 105"
  by (simp add: split_call_by_hour_eq length_date_range total_seconds_def ns_defs)

text \<open>
  C2 (cross-hour split). The claim: the call from 10:30 to 12:15 yields 30 minutes at
  10:00, 60 minutes at 11:00 and 15 minutes at 12:00. The code yields one contribution:
  60 minutes at 10:30.
\<close>

theorem cross_hour_split_fails:
  "split_call_by_hour (at_day_hm 4 10 30) (at_day_hm 4 12 15) ''SG'' =
     Inr [\<lparr>time_bucket = at_day_hm 4 10 30, minutes = 60, time_zone = ''SG''\<rparr>]"
  by (simp add: split_call_by_hour_eq length_date_range ns_defs)

text \<open>
  C6 (single-hour call). The claim: a call inside one wall-clock hour yields exactly one
  contribution. The code yields none for the call from 10:15 to 10:45, whose hour grid
  is the single point 10:15. The call from 10:00 to 11:00 does yield the one
  contribution of 60 minutes at 10:00.
\<close>

theorem single_hour_call_fails:
  "split_call_by_hour (at_day_hm 4 10 15) (at_day_hm 4 10 45) ''SG'' = Inr []
   \<and> split_call_by_hour (at_day_hm 4 10 0) (at_day_hm 4 11 0) ''SG'' =
       Inr [\<lparr>time_bucket = at_day_hm 4 10 0, minutes = 60, time_zone = ''SG''\<rparr>]"
  by (simp add: split_call_by_hour_eq length_date_range ns_defs)

text \<open>
  C8 (degenerate and invalid intervals). When the end of the call is not after its
  start, the splitter returns the empty list and raises nothing.
\<close>

theorem degenerate_interval_empty:
  "e \<le> s \<Longrightarrow> split_call_by_hour s e tz = Inr []"
  by (simp add: split_call_by_hour_eq length_date_range)

theorem degenerate_interval_empty_witness:
  "at_day_hm 4 10 0 \<le> at_day_hm 4 10 0
   \<and> split_call_by_hour (at_day_hm 4 10 0) (at_day_hm 4 10 0) ''SG'' = Inr []
   \<and> at_day_hm 4 10 0 \<le> at_day_hm 4 11 0
   \<and> split_call_by_hour (at_day_hm 4 11 0) (at_day_hm 4 10 0) ''NZ'' = Inr []"
proof -
  have h1: "at_day_hm 4 10 0 \<le> at_day_hm 4 10 0" by simp
  have h2: "at_day_hm 4 10 0 \<le> at_day_hm 4 11 0" by (simp add: ns_defs)
  from h1 degenerate_interval_empty [OF h1, of "''SG''"]
       h2 degenerate_interval_empty [OF h2, of "''NZ''"]
  show ?thesis by blast
qed

text \<open>
  C10 (bounds on a contribution). The splitter returns, and every contribution it
  returns has more than 0 and at most 60 minutes and carries the time zone that was
  passed in.
\<close>

theorem contribution_bounds:
  "\<exists>cs. split_call_by_hour s e tz = Inr cs
      \<and> (\<forall>c \<in> set cs. 0 < minutes c \<and> minutes c \<le> 60 \<and> time_zone c = tz)"
  by (auto simp: split_call_by_hour_eq)

theorem contribution_bounds_witness:
  "split_call_by_hour (at_day_hm 4 10 30) (at_day_hm 4 12 15) ''SG'' =
     Inr [\<lparr>time_bucket = at_day_hm 4 10 30, minutes = 60, time_zone = ''SG''\<rparr>]
   \<and> (0 < minutes \<lparr>time_bucket = at_day_hm 4 10 30, minutes = 60, time_zone = ''SG''\<rparr>
      \<and> minutes \<lparr>time_bucket = at_day_hm 4 10 30, minutes = 60, time_zone = ''SG''\<rparr> \<le> 60
      \<and> time_zone \<lparr>time_bucket = at_day_hm 4 10 30, minutes = 60, time_zone = ''SG''\<rparr>
          = ''SG'')"
proof -
  let ?c = "\<lparr>time_bucket = at_day_hm 4 10 30, minutes = 60, time_zone = ''SG''\<rparr>"
  have ev: "split_call_by_hour (at_day_hm 4 10 30) (at_day_hm 4 12 15) ''SG'' = Inr [?c]"
    by (simp add: split_call_by_hour_eq length_date_range ns_defs)
  from contribution_bounds [of "at_day_hm 4 10 30" "at_day_hm 4 12 15" "''SG''"]
  obtain cs where ret: "split_call_by_hour (at_day_hm 4 10 30) (at_day_hm 4 12 15) ''SG'' = Inr cs"
    and all: "\<forall>c \<in> set cs. 0 < minutes c \<and> minutes c \<le> 60 \<and> time_zone c = ''SG''"
    by blast
  from ret ev have mem: "?c \<in> set cs" by auto
  from ev bspec [OF all mem] show ?thesis by (rule conjI)
qed




section \<open>Claims about the grid aggregator\<close>

text \<open>
  C3 (empty input). The claim: on an empty call log the aggregator returns a grid of 168
  rows. The code raises instead: the two contribution lists are empty, the data frames
  built from them have no columns, and reading the column \<^verbatim>\<open>time_bucket\<close> of the first
  one raises KeyError before the grid is built.
\<close>

theorem empty_input_raises:
  "transform_for_time_heatmap [] = Inl (KeyError ''time_bucket'')"
  by (simp add: transform_for_time_heatmap_def with_weekday_hour_def column_time_bucket_def)

text \<open>
  C5 (grid completeness). The claim: for every call log, sparse or not, the table has
  168 rows. The code raises KeyError for the sparse log of two calls on a Monday, from
  09:15 to 09:45 and from 09:50 to 10:10 (in the other view four hours later): both calls
  are shorter than an hour, the splitter yields no contribution for them, and the
  aggregator reads a column of a frame without columns. When the aggregator does return,
  the table is the complete grid (lemma \<open>grid_when_returned\<close>).
\<close>

theorem sparse_input_raises:
  "transform_for_time_heatmap
     [\<lparr>Start_Datetime_SG = at_day_hm 4 9 15, End_Datetime_SG = at_day_hm 4 9 45,
       Start_Datetime_NZ = at_day_hm 4 13 15, End_Datetime_NZ = at_day_hm 4 13 45\<rparr>,
      \<lparr>Start_Datetime_SG = at_day_hm 4 9 50, End_Datetime_SG = at_day_hm 4 10 10,
       Start_Datetime_NZ = at_day_hm 4 13 50, End_Datetime_NZ = at_day_hm 4 14 10\<rparr>]
   = Inl (KeyError ''time_bucket'')"
  by (simp add: transform_for_time_heatmap_eq split_call_by_hour_eq length_date_range ns_defs)

text \<open>
  C7 (weekday convention). In the frame with the weekday and the hour added, which the
  aggregator builds in the same way for the contributions of either view, the row of a
  contribution has the weekday and the hour of its bucket start; the weekday is 0 when
  the bucket start falls on a Sunday (day 6 of the week that starts on Monday as day 0)
  and 6 when it falls on a Saturday (day 5).
\<close>

theorem weekday_convention:
  assumes "with_weekday_hour df = Inr rows" and "i < length df"
  shows "fst (rows ! i) = (Weekday (time_bucket (df ! i)), hour (time_bucket (df ! i)))
         \<and> (dayofweek (time_bucket (df ! i)) = 6 \<longrightarrow> fst (fst (rows ! i)) = 0)
         \<and> (dayofweek (time_bucket (df ! i)) = 5 \<longrightarrow> fst (fst (rows ! i)) = 6)"
proof -
  from assms have "rows = keyed df"
    by (simp add: with_weekday_hour_eq split: if_splits)
  with assms(2) show ?thesis
    by (simp add: Weekday_def)
qed

theorem weekday_convention_witness:
  "with_weekday_hour
     [\<lparr>time_bucket = at_day_hm 3 10 0, minutes = 60, time_zone = ''SG''\<rparr>,
      \<lparr>time_bucket = at_day_hm 2 23 30, minutes = 60, time_zone = ''NZ''\<rparr>]
     = Inr [((0, 10), 60), ((6, 23), 60)]
   \<and> dayofweek (time_bucket
        ([\<lparr>time_bucket = at_day_hm 3 10 0, minutes = 60, time_zone = ''SG''\<rparr>,
          \<lparr>time_bucket = at_day_hm 2 23 30, minutes = 60, time_zone = ''NZ''\<rparr>] ! 0)) = 6
   \<and> fst (fst (([((0, 10), 60), ((6, 23), 60)] :: (cell_key \<times> real) list) ! 0)) = 0
   \<and> dayofweek (time_bucket
        ([\<lparr>time_bucket = at_day_hm 3 10 0, minutes = 60, time_zone = ''SG''\<rparr>,
          \<lparr>time_bucket = at_day_hm 2 23 30, minutes = 60, time_zone = ''NZ''\<rparr>] ! 1)) = 5
   \<and> fst (fst (([((0, 10), 60), ((6, 23), 60)] :: (cell_key \<times> real) list) ! 1)) = 6"
proof -
  let ?df = "[\<lparr>time_bucket = at_day_hm 3 10 0, minutes = 60, time_zone = ''SG''\<rparr>,
              \<lparr>time_bucket = at_day_hm 2 23 30, minutes = 60, time_zone = ''NZ''\<rparr>]"
  let ?rows = "[((0, 10), 60), ((6, 23), 60)] :: (cell_key \<times> real) list"
  have ev: "with_weekday_hour ?df = Inr ?rows"
    by (simp add: with_weekday_hour_def column_time_bucket_def Weekday_def dayofweek_def
        hour_def ns_defs)
  have len0: "0 < length ?df" and len1: "1 < length ?df"
    by simp_all
  have sun: "dayofweek (time_bucket (?df ! 0)) = 6"
    by (simp add: dayofweek_def ns_defs)
  have sat: "dayofweek (time_bucket (?df ! 1)) = 5"
    by (simp add: dayofweek_def ns_defs)
  note c0 = weekday_convention [OF ev len0]
  note c1 = weekday_convention [OF ev len1]
  have r0: "fst (fst (?rows ! 0)) = 0"
    by (rule mp [OF conjunct1 [OF conjunct2 [OF c0]] sun])
  have r1: "fst (fst (?rows ! 1)) = 6"
    by (rule mp [OF conjunct2 [OF conjunct2 [OF c1]] sat])
  show ?thesis
    by (intro conjI) (rule ev sun r0 sat r1)+
qed

text \<open>
  C9 (order independence). Two call logs with the same records in any order give the
  same result: the same error, or the same table with the same rows in the same order.
  Minutes are real numbers here, so sums do not depend on the order of the summands.
\<close>

theorem order_independence:
  assumes "mset calls = mset calls'"
  shows "transform_for_time_heatmap calls = transform_for_time_heatmap calls'"
proof -
  have sg: "mset (sg_contributions calls) = mset (sg_contributions calls')"
    using assms by (rule mset_concat_map)
  have nz: "mset (nz_contributions calls) = mset (nz_contributions calls')"
    using assms by (rule mset_concat_map)
  have sg_empty: "(sg_contributions calls = []) = (sg_contributions calls' = [])"
    using sg by (rule empty_iff_mset)
  have nz_empty: "(nz_contributions calls = []) = (nz_contributions calls' = [])"
    using nz by (rule empty_iff_mset)
  have sg_agg: "groupby_sum (keyed (sg_contributions calls)) =
                groupby_sum (keyed (sg_contributions calls'))"
    by (rule groupby_sum_mset [OF mset_keyed [OF sg]])
  have nz_agg: "groupby_sum (keyed (nz_contributions calls)) =
                groupby_sum (keyed (nz_contributions calls'))"
    by (rule groupby_sum_mset [OF mset_keyed [OF nz]])
  show ?thesis
    by (simp only: transform_for_time_heatmap_eq sg_agg nz_agg sg_empty nz_empty)
qed

theorem order_independence_witness:
  "mset [\<lparr>Start_Datetime_SG = at_day_hm 4 10 30, End_Datetime_SG = at_day_hm 4 12 15,
           Start_Datetime_NZ = at_day_hm 4 14 30, End_Datetime_NZ = at_day_hm 4 16 15\<rparr>,
          \<lparr>Start_Datetime_SG = at_day_hm 3 9 0, End_Datetime_SG = at_day_hm 3 11 0,
           Start_Datetime_NZ = at_day_hm 3 13 0, End_Datetime_NZ = at_day_hm 3 15 0\<rparr>]
   = mset [\<lparr>Start_Datetime_SG = at_day_hm 3 9 0, End_Datetime_SG = at_day_hm 3 11 0,
             Start_Datetime_NZ = at_day_hm 3 13 0, End_Datetime_NZ = at_day_hm 3 15 0\<rparr>,
            \<lparr>Start_Datetime_SG = at_day_hm 4 10 30, End_Datetime_SG = at_day_hm 4 12 15,
             Start_Datetime_NZ = at_day_hm 4 14 30, End_Datetime_NZ = at_day_hm 4 16 15\<rparr>]
   \<and> transform_for_time_heatmap
        [\<lparr>Start_Datetime_SG = at_day_hm 4 10 30, End_Datetime_SG = at_day_hm 4 12 15,
          Start_Datetime_NZ = at_day_hm 4 14 30, End_Datetime_NZ = at_day_hm 4 16 15\<rparr>,
         \<lparr>Start_Datetime_SG = at_day_hm 3 9 0, End_Datetime_SG = at_day_hm 3 11 0,
          Start_Datetime_NZ = at_day_hm 3 13 0, End_Datetime_NZ = at_day_hm 3 15 0\<rparr>]
     = transform_for_time_heatmap
        [\<lparr>Start_Datetime_SG = at_day_hm 3 9 0, End_Datetime_SG = at_day_hm 3 11 0,
          Start_Datetime_NZ = at_day_hm 3 13 0, End_Datetime_NZ = at_day_hm 3 15 0\<rparr>,
         \<lparr>Start_Datetime_SG = at_day_hm 4 10 30, End_Datetime_SG = at_day_hm 4 12 15,
          Start_Datetime_NZ = at_day_hm 4 14 30, End_Datetime_NZ = at_day_hm 4 16 15\<rparr>]"
proof -
  let ?a = "\<lparr>Start_Datetime_SG = at_day_hm 4 10 30, End_Datetime_SG = at_day_hm 4 12 15,
             Start_Datetime_NZ = at_day_hm 4 14 30, End_Datetime_NZ = at_day_hm 4 16 15\<rparr>"
  let ?b = "\<lparr>Start_Datetime_SG = at_day_hm 3 9 0, End_Datetime_SG = at_day_hm 3 11 0,
             Start_Datetime_NZ = at_day_hm 3 13 0, End_Datetime_NZ = at_day_hm 3 15 0\<rparr>"
  have h: "mset [?a, ?b] = mset [?b, ?a]"
    by (simp only: mset.simps add_mset_commute)
  from h order_independence [OF h] show ?thesis
    by (rule conjI)
qed

end
